theory Spec2Isabelle
  imports
    Complex_Main
    "HOL-Library.Char_ord"
    "HOL-Library.List_Lexorder"
    "HOL-Library.AList"
    "HOL-Library.Word"
begin

section \<open>Data model\<close>

text \<open>
  The program is \<^verbatim>\<open>src/utilites/dirCompare.py\<close>. Python strings are modelled as
  \<^typ>\<open>string\<close>, a list of characters read as code points below 256; with
  \<^verbatim>\<open>Char_ord\<close> and \<^verbatim>\<open>List_Lexorder\<close> the order \<open>\<le>\<close> on them is the lexicographic
  order by code point, which is the order Python's \<^verbatim>\<open>sorted\<close> uses on \<^verbatim>\<open>str\<close>.

  A snapshot (the \<^verbatim>\<open>dict\<close> built by \<^verbatim>\<open>compute_folder_checksum\<close>) is an association list in
  insertion order. \<open>dict_keys\<close> is \<^verbatim>\<open>set(d.keys())\<close> and \<open>map_of d k\<close> is the lookup
  \<^verbatim>\<open>d[k]\<close>, \<open>None\<close> standing for a missing key.
\<close>

type_synonym snapshot = "(string \<times> string) list"

definition dict_keys :: "snapshot \<Rightarrow> string set" where
  "dict_keys d = set (map fst d)"

record diff_result =
  added :: "string list"
  removed :: "string list"
  changed :: "string list"

section \<open>The diff engine\<close>

text \<open>
  \<^verbatim>\<open>compare_folders\<close>, lines 94-119. The comprehension for \<^verbatim>\<open>changed\<close> indexes both
  dictionaries at keys of \<^verbatim>\<open>common\<close> only, so \<^verbatim>\<open>KeyError\<close> cannot be raised there
  (lemma \<open>common_lookup\<close> below) and comparing the two lookups as options is comparing
  the two digests.
\<close>

definition compare_folders :: "snapshot \<Rightarrow> snapshot \<Rightarrow> diff_result" where
  "compare_folders folder1_checksums folder2_checksums =
     (let folder1_files = dict_keys folder1_checksums;
          folder2_files = dict_keys folder2_checksums;
          added_set = folder2_files - folder1_files;
          removed_set = folder1_files - folder2_files;
          common = folder1_files \<inter> folder2_files;
          changed_set = Set.filter
            (\<lambda>file. map_of folder1_checksums file \<noteq> map_of folder2_checksums file) common
      in \<lparr> added = sorted_list_of_set added_set,
           removed = sorted_list_of_set removed_set,
           changed = sorted_list_of_set changed_set \<rparr>)"

section \<open>Errors and the operating system\<close>

text \<open>
  Every \<^verbatim>\<open>raise\<close> of the source, and every exception of a library call it makes, is a value
  of \<open>py_error\<close> carrying the message Python would print for it; a function that can
  raise returns \<open>py_error + 'a\<close>, with \<open>Inl\<close> for the exception.
\<close>

datatype py_error =
    ValueError string
  | FileNotFoundError string
  | OSError string
  | AttributeError string
  | OverflowError string
  | IndexError string

fun error_str :: "py_error \<Rightarrow> string" where
  "error_str (ValueError m) = m"
| "error_str (FileNotFoundError m) = m"
| "error_str (OSError m) = m"
| "error_str (AttributeError m) = m"
| "error_str (OverflowError m) = m"
| "error_str (IndexError m) = m"

type_synonym byte = "8 word"

text \<open>
  The file system, as the library calls of the source see it during one run:
  \<^item> \<open>os_walk top\<close> is the sequence of triples \<^verbatim>\<open>(root, dirs, files)\<close> that
    \<^verbatim>\<open>os.walk(top)\<close> yields;
  \<^item> \<open>path_join\<close> and \<open>path_relpath\<close> are \<^verbatim>\<open>os.path.join\<close> and \<^verbatim>\<open>os.path.relpath\<close>;
  \<^item> \<open>open_rb p\<close> is the whole content of the file \<open>p\<close> opened with mode \<^verbatim>\<open>'rb'\<close>, or the
    exception that opening or reading it raises;
  \<^item> \<open>open_text p\<close> is the sequence of lines that iterating over the file \<open>p\<close> opened with
    mode \<^verbatim>\<open>'r'\<close> yields (each with its line terminator), or the exception of the open;
  \<^item> \<open>file_size p\<close> is the size of \<open>p\<close> when it exists, \<open>None\<close> otherwise.
\<close>

record os_env =
  os_walk :: "string \<Rightarrow> (string \<times> string list \<times> string list) list"
  path_join :: "string \<Rightarrow> string \<Rightarrow> string"
  path_relpath :: "string \<Rightarrow> string \<Rightarrow> string"
  open_rb :: "string \<Rightarrow> py_error + byte list"
  open_text :: "string \<Rightarrow> py_error + string list"
  file_size :: "string \<Rightarrow> nat option"

definition path_exists :: "os_env \<Rightarrow> string \<Rightarrow> bool" where
  "path_exists env p = (file_size env p \<noteq> None)"


section \<open>The file hasher\<close>

text \<open>
  A hash object of \<^verbatim>\<open>hashlib\<close> is an incremental accumulator: a fresh state, \<^verbatim>\<open>update\<close>
  and \<^verbatim>\<open>hexdigest\<close>. \<^verbatim>\<open>getattr(hashlib, name)\<close> is a partial map from names to algorithms.
\<close>

record 's hash_alg =
  hash_new :: 's
  hash_update :: "'s \<Rightarrow> byte list \<Rightarrow> 's"
  hash_hexdigest :: "'s \<Rightarrow> string"

text \<open>
  The documented contract of \<^verbatim>\<open>hashlib\<close>: repeated calls of \<^verbatim>\<open>update\<close> are equivalent
  to a single call with the concatenation of the arguments.
\<close>

definition streaming :: "'s hash_alg \<Rightarrow> bool" where
  "streaming H = ((\<forall>s. hash_update H s [] = s)
     \<and> (\<forall>s a b. hash_update H (hash_update H s a) b = hash_update H s (a @ b)))"

text \<open>
  The loop \<^verbatim>\<open>while chunk := f.read(n): hash_func.update(chunk)\<close> of lines 23-24, on the
  bytes \<open>f\<close> not yet read: \<^verbatim>\<open>f.read(n)\<close> returns the next \<open>n\<close> bytes, fewer at the end of
  the file, and the loop stops at the first empty chunk.
\<close>

function read_chunks :: "nat \<Rightarrow> 's hash_alg \<Rightarrow> byte list \<Rightarrow> 's \<Rightarrow> 's" where
  "read_chunks n H f hash_func =
     (if take n f = [] then hash_func
      else read_chunks n H (drop n f) (hash_update H hash_func (take n f)))"
  by pat_completeness auto
termination
  by (relation "measure (\<lambda>(n, H, f, hash_func). length f)") auto

declare read_chunks.simps [simp del]

definition compute_file_checksum ::
  "(string \<Rightarrow> 's hash_alg option) \<Rightarrow> os_env \<Rightarrow> string \<Rightarrow> string \<Rightarrow> py_error + string" where
  "compute_file_checksum hashlib env file_path hash_algorithm =
     (case hashlib hash_algorithm of
        None \<Rightarrow> Inl (AttributeError (''module hashlib has no attribute '' @ hash_algorithm))
      | Some H \<Rightarrow>
          (case open_rb env file_path of
             Inl e \<Rightarrow> Inl e
           | Inr f \<Rightarrow> Inr (hash_hexdigest H (read_chunks 8192 H f (hash_new H)))))"

section \<open>The ignore policy and the checksum builder\<close>

definition IGNORE_FILES :: "string set" where
  "IGNORE_FILES =
     {''.DS_Store'', ''Thumbs.db'', ''desktop.ini'', ''.git'', ''.gitignore'', ''.gitattributes''}"

definition IGNORE_EXTENSIONS :: "string set" where
  "IGNORE_EXTENSIONS = {''.tmp'', ''.bak'', ''.swp'', ''.swo'', ''.old'', ''.orig''}"

definition endswith :: "string \<Rightarrow> string \<Rightarrow> bool" where
  "endswith s suffix =
     (length suffix \<le> length s \<and> drop (length s - length suffix) s = suffix)"

definition startswith :: "string \<Rightarrow> string \<Rightarrow> bool" where
  "startswith s prefix = (take (length prefix) s = prefix)"

text \<open>The test of line 40.\<close>

definition ignored :: "string \<Rightarrow> bool" where
  "ignored file = (file \<in> IGNORE_FILES \<or> (\<exists>ext\<in>IGNORE_EXTENSIONS. endswith file ext))"

text \<open>
  \<^verbatim>\<open>compute_folder_checksum\<close>, lines 36-45: the inner loop over \<^verbatim>\<open>sorted(files)\<close>, the outer
  loop over the triples of \<^verbatim>\<open>os.walk\<close> (the loop variable \<^verbatim>\<open>root\<close> is \<open>root_dir\<close>
  here). An exception of \<^verbatim>\<open>compute_file_checksum\<close> ends
  both loops. \<open>AList.update\<close> is the assignment \<^verbatim>\<open>checksums[relative_path] = ...\<close>.
\<close>

fun checksum_files ::
  "(string \<Rightarrow> 's hash_alg option) \<Rightarrow> os_env \<Rightarrow> string \<Rightarrow> string \<Rightarrow> string \<Rightarrow> string list
     \<Rightarrow> snapshot \<Rightarrow> py_error + snapshot" where
  "checksum_files hashlib env folder_path hash_algorithm root_dir [] checksums = Inr checksums"
| "checksum_files hashlib env folder_path hash_algorithm root_dir (file # files) checksums =
     (if ignored file
      then checksum_files hashlib env folder_path hash_algorithm root_dir files checksums
      else
        (let file_path = path_join env root_dir file;
             relative_path = path_relpath env file_path folder_path
         in case compute_file_checksum hashlib env file_path hash_algorithm of
              Inl e \<Rightarrow> Inl e
            | Inr digest \<Rightarrow>
                checksum_files hashlib env folder_path hash_algorithm root_dir files
                  (AList.update relative_path digest checksums)))"

fun checksum_walk ::
  "(string \<Rightarrow> 's hash_alg option) \<Rightarrow> os_env \<Rightarrow> string \<Rightarrow> string
     \<Rightarrow> (string \<times> string list \<times> string list) list \<Rightarrow> snapshot \<Rightarrow> py_error + snapshot" where
  "checksum_walk hashlib env folder_path hash_algorithm [] checksums = Inr checksums"
| "checksum_walk hashlib env folder_path hash_algorithm ((root_dir, dirs, files) # rest) checksums =
     (case checksum_files hashlib env folder_path hash_algorithm root_dir (sort files) checksums of
        Inl e \<Rightarrow> Inl e
      | Inr checksums' \<Rightarrow> checksum_walk hashlib env folder_path hash_algorithm rest checksums')"

definition compute_folder_checksum ::
  "(string \<Rightarrow> 's hash_alg option) \<Rightarrow> os_env \<Rightarrow> string \<Rightarrow> string \<Rightarrow> py_error + snapshot" where
  "compute_folder_checksum hashlib env folder_path hash_algorithm =
     checksum_walk hashlib env folder_path hash_algorithm (os_walk env folder_path) []"

section \<open>The size aggregator\<close>




section \<open>Formatting a size\<close>

text \<open>
  \<^verbatim>\<open>format_size\<close>, lines 71-74. The argument is a Python \<^verbatim>\<open>int\<close>; \<^verbatim>\<open>bytes_size /= 1024.0\<close>
  makes it a \<^verbatim>\<open>float\<close> from the second iteration on. A float is modelled by the rational
  number it denotes. That is exact here: the conversion of an \<^verbatim>\<open>int\<close> to a \<^verbatim>\<open>float\<close>
  (round to nearest, ties to even, on 53 bits, \<^verbatim>\<open>OverflowError\<close> beyond the largest double)
  is \<open>int_to_float\<close>, and the only floats the loop divides are at least 1024, where a
  division by the power of two 1024.0 is exact.
\<close>

datatype pynum = PyInt int | PyFloat rat

fun bit_length :: "nat \<Rightarrow> nat" where
  "bit_length n = (if n = 0 then 0 else Suc (bit_length (n div 2)))"

declare bit_length.simps [simp del]

definition round_half_even :: "rat \<Rightarrow> int" where
  "round_half_even x =
     (let f = \<lfloor>x\<rfloor>; d = x - of_int f
      in if d < 1 / 2 then f else if 1 / 2 < d then f + 1 else if even f then f else f + 1)"

definition int_to_float :: "int \<Rightarrow> py_error + rat" where
  "int_to_float n =
     (let a = nat \<bar>n\<bar>;
          e = bit_length a - 53;
          m = round_half_even (of_nat a / 2 ^ e) * 2 ^ e
      in if 2 ^ 1024 \<le> m then Inl (OverflowError ''int too large to convert to float'')
         else Inr (of_int (sgn n * m)))"

fun str_nat :: "nat \<Rightarrow> string" where
  "str_nat n =
     (if n < 10 then [''0123456789'' ! n] else str_nat (n div 10) @ [''0123456789'' ! (n mod 10)])"

declare str_nat.simps [simp del]

text \<open>The format specification \<^verbatim>\<open>.0f\<close> on a float: no fractional digits, correctly rounded.\<close>

definition float_format_0f :: "rat \<Rightarrow> string" where
  "float_format_0f x = (if x < 0 then ''-'' else []) @ str_nat (nat \<bar>round_half_even x\<bar>)"

fun lt_1024 :: "pynum \<Rightarrow> bool" where
  "lt_1024 (PyInt n) = (n < 1024)"
| "lt_1024 (PyFloat x) = (x < 1024)"

fun format_0f :: "pynum \<Rightarrow> py_error + string" where
  "format_0f (PyInt n) =
     (case int_to_float n of Inl e \<Rightarrow> Inl e | Inr x \<Rightarrow> Inr (float_format_0f x))"
| "format_0f (PyFloat x) = Inr (float_format_0f x)"

fun truediv_1024 :: "pynum \<Rightarrow> py_error + pynum" where
  "truediv_1024 (PyInt n) =
     (case int_to_float n of Inl e \<Rightarrow> Inl e | Inr x \<Rightarrow> Inr (PyFloat (x / 1024)))"
| "truediv_1024 (PyFloat x) = Inr (PyFloat (x / 1024))"

text \<open>
  The loop over the units. Falling off the end of the loop, the function returns
  \<^verbatim>\<open>None\<close>: the result is \<open>Inr None\<close>.
\<close>

fun format_size_loop :: "pynum \<Rightarrow> string list \<Rightarrow> py_error + string option" where
  "format_size_loop bytes_size [] = Inr None"
| "format_size_loop bytes_size (unit # units) =
     (if lt_1024 bytes_size
      then (case format_0f bytes_size of Inl e \<Rightarrow> Inl e | Inr s \<Rightarrow> Inr (Some (s @ unit)))
      else (case truediv_1024 bytes_size of
              Inl e \<Rightarrow> Inl e
            | Inr bytes_size' \<Rightarrow> format_size_loop bytes_size' units))"

definition size_units :: "string list" where
  "size_units = [''B'', ''KB'', ''MB'', ''GB'', ''TB'']"

definition format_size :: "int \<Rightarrow> py_error + string option" where
  "format_size bytes_size = format_size_loop (PyInt bytes_size) size_units"

section \<open>Reading the configuration\<close>

text \<open>
  \<^verbatim>\<open>str.isspace\<close> on the code points below 256, \<^verbatim>\<open>str.strip()\<close>, \<^verbatim>\<open>str.strip('"')\<close> and
  \<^verbatim>\<open>line.split("=", 1)[1]\<close>, which raises \<^verbatim>\<open>IndexError\<close> on a line without \<^verbatim>\<open>=\<close>.
\<close>

definition isspace :: "char \<Rightarrow> bool" where
  "isspace c = ((of_char c :: nat) \<in> {9, 10, 11, 12, 13, 28, 29, 30, 31, 32, 133, 160})"

definition strip :: "string \<Rightarrow> string" where
  "strip s = rev (dropWhile isspace (rev (dropWhile isspace s)))"

definition strip_quotes :: "string \<Rightarrow> string" where
  "strip_quotes s =
     rev (dropWhile (\<lambda>c. c = CHR 0x22) (rev (dropWhile (\<lambda>c. c = CHR 0x22) s)))"

definition split_eq_1 :: "string \<Rightarrow> py_error + string" where
  "split_eq_1 line =
     (case dropWhile (\<lambda>c. c \<noteq> CHR ''='') line of
        [] \<Rightarrow> Inl (IndexError ''list index out of range'')
      | c # rest \<Rightarrow> Inr rest)"

text \<open>
  \<^verbatim>\<open>read_config\<close>, lines 129-142: the loop over the lines with the two variables
  \<^verbatim>\<open>original_dir\<close> and \<^verbatim>\<open>destination_dir\<close> (Python's \<^verbatim>\<open>None\<close> is \<open>None\<close>), then the test
  \<^verbatim>\<open>not original_dir or not destination_dir\<close>, true of \<^verbatim>\<open>None\<close> and of the empty string.
\<close>

fun read_config_lines ::
  "string list \<Rightarrow> string option \<Rightarrow> string option \<Rightarrow> py_error + (string option \<times> string option)" where
  "read_config_lines [] original_dir destination_dir = Inr (original_dir, destination_dir)"
| "read_config_lines (line # lines) original_dir destination_dir =
     (if startswith line ''original=''
      then (case split_eq_1 line of
              Inl e \<Rightarrow> Inl e
            | Inr v \<Rightarrow> read_config_lines lines (Some (strip_quotes (strip v))) destination_dir)
      else if startswith line ''destination=''
      then (case split_eq_1 line of
              Inl e \<Rightarrow> Inl e
            | Inr v \<Rightarrow> read_config_lines lines original_dir (Some (strip_quotes (strip v))))
      else read_config_lines lines original_dir destination_dir)"

definition config_error :: py_error where
  "config_error =
     ValueError ''Both original and destination directories must be specified in the config file.''"

definition read_config :: "os_env \<Rightarrow> string \<Rightarrow> py_error + (string \<times> string)" where
  "read_config env file_path =
     (case open_text env file_path of
        Inl e \<Rightarrow> Inl e
      | Inr f \<Rightarrow>
          (case read_config_lines f None None of
             Inl e \<Rightarrow> Inl e
           | Inr (Some original_dir, Some destination_dir) \<Rightarrow>
               if original_dir = [] \<or> destination_dir = [] then Inl config_error
               else Inr (original_dir, destination_dir)
           | Inr _ \<Rightarrow> Inl config_error))"

section \<open>The command line\<close>

text \<open>
  \<^verbatim>\<open>main\<close>, lines 183-241, as the sequence of what it does to the outside: opening the
  configuration file, asking whether a directory exists, printing a line. The work on
  the two directories that follows their validation (lines 201-236: sizes, checksums,
  comparison, report) is the parameter \<open>compare_and_report\<close>.
\<close>

datatype event = OpenConfig string | DirExists string | Print string

definition main :: "os_env \<Rightarrow> (string \<Rightarrow> string \<Rightarrow> event list) \<Rightarrow> string list \<Rightarrow> event list" where
  "main env compare_and_report argv =
     (if length argv \<noteq> 2 then [Print ''Usage: python3 dirCompare.py <config-file>'']
      else
        (let config_file = argv ! 1
         in OpenConfig config_file #
            (case read_config env config_file of
               Inl (FileNotFoundError m) \<Rightarrow> [Print (''Error: '' @ m)]
             | Inl e \<Rightarrow> [Print (''An unexpected error occurred: '' @ error_str e)]
             | Inr (original_dir, destination_dir) \<Rightarrow>
                 DirExists original_dir #
                 (if \<not> path_exists env original_dir
                  then [Print (''Error: Original directory does not exist: '' @ original_dir)]
                  else DirExists destination_dir #
                    (if \<not> path_exists env destination_dir
                     then [Print (''Error: Destination directory does not exist: ''
                                   @ destination_dir)]
                     else Print (''Comparing folders:'' @ [CHR 0x0A] @ ''Original: '' @ original_dir
                                  @ [CHR 0x0A] @ ''Destination: '' @ destination_dir)
                          # compare_and_report original_dir destination_dir)))))"

section \<open>A small file system, for examples\<close>

definition example_hash :: "nat hash_alg" where
  "example_hash =
     \<lparr> hash_new = 0,
       hash_update = (\<lambda>s bs. s + length bs),
       hash_hexdigest = str_nat \<rparr>"

definition example_hashlib :: "string \<Rightarrow> nat hash_alg option" where
  "example_hashlib name = (if name = ''sha256'' then Some example_hash else None)"

definition example_env :: os_env where
  "example_env =
     \<lparr> os_walk = (\<lambda>top. [(top, [''sub''], [''y.txt'', ''x.tmp'']), (top @ ''/sub'', [], [''.gitignore''])]),
       path_join = (\<lambda>a b. a @ ''/'' @ b),
       path_relpath = (\<lambda>p start. drop (length start + 1) p),
       open_rb = (\<lambda>p. if p = ''r/y.txt'' then Inr (replicate 10000 1) else Inr []),
       open_text = (\<lambda>p. if p = ''cfg'' then Inr [''original=r'' @ [CHR 0x0A]]
                         else Inl (FileNotFoundError ''[Errno 2] No such file or directory'')),
       file_size = (\<lambda>p. if p = ''r/y.txt'' then Some 10000 else if p = ''r/x.tmp'' then Some 2
                         else None) \<rparr>"

section \<open>Properties of the diff engine\<close>

lemma finite_dict_keys: "finite (dict_keys d)"
  by (simp add: dict_keys_def)

lemma common_lookup:
  "k \<in> dict_keys d1 \<inter> dict_keys d2 \<Longrightarrow> (\<exists>v1 v2. map_of d1 k = Some v1 \<and> map_of d2 k = Some v2)"
  by (auto simp: dict_keys_def weak_map_of_SomeI dest!: weak_map_of_SomeI
      intro: domD simp flip: dom_map_of_conv_image_fst)

lemma set_added: "set (added (compare_folders s1 s2)) = dict_keys s2 - dict_keys s1"
  by (simp add: compare_folders_def Let_def finite_dict_keys)

lemma set_removed: "set (removed (compare_folders s1 s2)) = dict_keys s1 - dict_keys s2"
  by (simp add: compare_folders_def Let_def finite_dict_keys)

lemma set_changed:
  "set (changed (compare_folders s1 s2)) =
     {k \<in> dict_keys s1 \<inter> dict_keys s2. map_of s1 k \<noteq> map_of s2 k}"
  by (auto simp: compare_folders_def Let_def finite_dict_keys)

lemma dict_keys_dom: "dict_keys d = dom (map_of d)"
  by (simp add: dict_keys_def dom_map_of_conv_image_fst)

lemma compare_folders_cong:
  assumes "map_of s1 = map_of t1" and "map_of s2 = map_of t2"
  shows "compare_folders s1 s2 = compare_folders t1 t2"
  using assms by (simp add: compare_folders_def dict_keys_dom)

text \<open>
  The scenario of the specification: \<^verbatim>\<open>b.txt\<close> changes and \<^verbatim>\<open>c.txt\<close> is new.
\<close>

lemma example_diff:
  "compare_folders [(''a.txt'', ''h1''), (''b.txt'', ''h2'')]
     [(''a.txt'', ''h1''), (''b.txt'', ''H2''), (''c.txt'', ''h3'')]
   = \<lparr> added = [''c.txt''], removed = [], changed = [''b.txt''] \<rparr>"
  by code_simp

text \<open>
  C1 (partition invariant): for any two snapshots the lists \<^verbatim>\<open>added\<close>, \<^verbatim>\<open>removed\<close> and
  \<^verbatim>\<open>changed\<close> are pairwise disjoint and free of repetitions; \<^verbatim>\<open>added\<close> holds exactly the
  keys only in the second snapshot, \<^verbatim>\<open>removed\<close> exactly the keys only in the first,
  \<^verbatim>\<open>changed\<close> exactly the keys in both with differing digests, and the keys of the union
  that are in none of the three lists are exactly the keys in both with equal digests
  (the implicit unchanged class). So every key of the union is in exactly one class.
\<close>

theorem compare_folders_partition:
  "set (added (compare_folders s1 s2)) \<inter> set (removed (compare_folders s1 s2)) = {}
   \<and> set (added (compare_folders s1 s2)) \<inter> set (changed (compare_folders s1 s2)) = {}
   \<and> set (removed (compare_folders s1 s2)) \<inter> set (changed (compare_folders s1 s2)) = {}
   \<and> distinct (added (compare_folders s1 s2))
   \<and> distinct (removed (compare_folders s1 s2))
   \<and> distinct (changed (compare_folders s1 s2))
   \<and> set (added (compare_folders s1 s2)) = {k. k \<in> dict_keys s2 \<and> k \<notin> dict_keys s1}
   \<and> set (removed (compare_folders s1 s2)) = {k. k \<in> dict_keys s1 \<and> k \<notin> dict_keys s2}
   \<and> set (changed (compare_folders s1 s2)) =
        {k. k \<in> dict_keys s1 \<and> k \<in> dict_keys s2 \<and> map_of s1 k \<noteq> map_of s2 k}
   \<and> (dict_keys s1 \<union> dict_keys s2)
        - (set (added (compare_folders s1 s2)) \<union> set (removed (compare_folders s1 s2))
           \<union> set (changed (compare_folders s1 s2)))
       = {k. k \<in> dict_keys s1 \<and> k \<in> dict_keys s2 \<and> map_of s1 k = map_of s2 k}"
proof -
  have d: "distinct (added (compare_folders s1 s2))"
    "distinct (removed (compare_folders s1 s2))"
    "distinct (changed (compare_folders s1 s2))"
    by (simp_all add: compare_folders_def Let_def)
  show ?thesis
    unfolding set_added set_removed set_changed using d by auto
qed

text \<open>
  C2 (symmetry): swapping the two snapshots swaps \<^verbatim>\<open>added\<close> with \<^verbatim>\<open>removed\<close> and leaves
  \<^verbatim>\<open>changed\<close> as it is, as sorted lists.
\<close>

theorem compare_folders_symmetry:
  "added (compare_folders s1 s2) = removed (compare_folders s2 s1)
   \<and> removed (compare_folders s1 s2) = added (compare_folders s2 s1)
   \<and> changed (compare_folders s1 s2) = changed (compare_folders s2 s1)"
proof -
  have "Set.filter (\<lambda>file. map_of s1 file \<noteq> map_of s2 file) (dict_keys s1 \<inter> dict_keys s2)
      = Set.filter (\<lambda>file. map_of s2 file \<noteq> map_of s1 file) (dict_keys s2 \<inter> dict_keys s1)"
    by auto
  then show ?thesis
    by (simp add: compare_folders_def Let_def)
qed

text \<open>
  C3 (idempotence): comparing a snapshot with itself gives the empty diff: the three
  lists \<^verbatim>\<open>added\<close>, \<^verbatim>\<open>removed\<close> and \<^verbatim>\<open>changed\<close> are all empty.
\<close>

theorem compare_folders_same_empty:
  "compare_folders s s = \<lparr> added = [], removed = [], changed = [] \<rparr>"
  by (simp add: compare_folders_def Let_def)

text \<open>
  C4 (sorted, deterministic output): each of the three lists is strictly ascending in the
  lexicographic order on paths, and the result is a function of the two dictionaries
  alone: two pairs of snapshots holding the same entries, in whatever insertion order,
  give the identical result value.
\<close>

theorem compare_folders_sorted:
  "sorted_wrt (<) (added (compare_folders s1 s2))
   \<and> sorted_wrt (<) (removed (compare_folders s1 s2))
   \<and> sorted_wrt (<) (changed (compare_folders s1 s2))
   \<and> (map_of s1 = map_of t1 \<longrightarrow> map_of s2 = map_of t2 \<longrightarrow>
        compare_folders s1 s2 = compare_folders t1 t2)"
proof -
  have "sorted_wrt (<) (added (compare_folders s1 s2))"
    "sorted_wrt (<) (removed (compare_folders s1 s2))"
    "sorted_wrt (<) (changed (compare_folders s1 s2))"
    by (simp_all add: compare_folders_def Let_def)
  then show ?thesis
    using compare_folders_cong by blast
qed

theorem compare_folders_sorted_witness:
  "map_of [(''a.txt'', ''d1''), (''b.txt'', ''d2'')] = map_of [(''b.txt'', ''d2''), (''a.txt'', ''d1'')]
   \<and> compare_folders [(''a.txt'', ''d1''), (''b.txt'', ''d2'')] [(''c.txt'', ''d3''), (''b.txt'', ''d4'')]
     = compare_folders [(''b.txt'', ''d2''), (''a.txt'', ''d1'')] [(''c.txt'', ''d3''), (''b.txt'', ''d4'')]
   \<and> sorted_wrt (<) (added (compare_folders [(''a.txt'', ''d1''), (''b.txt'', ''d2'')]
        [(''c.txt'', ''d3''), (''b.txt'', ''d4'')]))"
proof -
  have h: "map_of [(''a.txt'', ''d1''), (''b.txt'', ''d2'')]
      = map_of [(''b.txt'', ''d2''), (''a.txt'', ''d1'')]"
    by (rule ext) simp
  show ?thesis
    using h compare_folders_sorted
      [of "[(''a.txt'', ''d1''), (''b.txt'', ''d2'')]" "[(''c.txt'', ''d3''), (''b.txt'', ''d4'')]"
          "[(''b.txt'', ''d2''), (''a.txt'', ''d1'')]" "[(''c.txt'', ''d3''), (''b.txt'', ''d4'')]"]
    by blast
qed

section \<open>Properties of the size aggregator\<close>




section \<open>Properties of the file hasher\<close>

lemma read_chunks_streaming:
  "streaming H \<Longrightarrow> 0 < n \<Longrightarrow> read_chunks n H f s = hash_update H s f"
proof (induction n H f s rule: read_chunks.induct)
  case (1 n H f s)
  show ?case
  proof (cases "take n f = []")
    case True
    with "1.prems" have "f = []" by simp
    with "1.prems" show ?thesis
      by (simp add: read_chunks.simps streaming_def)
  next
    case False
    then have "read_chunks n H f s = read_chunks n H (drop n f) (hash_update H s (take n f))"
      by (subst read_chunks.simps) simp
    also have "\<dots> = hash_update H (hash_update H s (take n f)) (drop n f)"
      using "1.IH" [OF False "1.prems"] .
    also have "\<dots> = hash_update H s (take n f @ drop n f)"
      using "1.prems"(1) by (simp add: streaming_def)
    finally show ?thesis by simp
  qed
qed

lemma fold_update_streaming:
  "streaming H \<Longrightarrow> fold (\<lambda>c s. hash_update H s c) chunks s = hash_update H s (concat chunks)"
  by (induction chunks arbitrary: s) (simp_all add: streaming_def)

text \<open>
  C7: for a hash algorithm that keeps the contract of \<^verbatim>\<open>hashlib\<close>, the digest that
  \<^verbatim>\<open>compute_file_checksum\<close> computes by reading chunks of 8192 bytes is the digest of the
  whole content passed in one \<^verbatim>\<open>update\<close>. The chunk boundaries do not matter: the loop
  gives the same state for every positive chunk size, and so does feeding any sequence of
  chunks whose concatenation is the content.
\<close>

theorem compute_file_checksum_whole:
  assumes "streaming H" and "hashlib hash_algorithm = Some H" and "open_rb env file_path = Inr content"
  shows "compute_file_checksum hashlib env file_path hash_algorithm
           = Inr (hash_hexdigest H (hash_update H (hash_new H) content))
         \<and> (\<forall>n>0. read_chunks n H content (hash_new H) = hash_update H (hash_new H) content)
         \<and> (\<forall>chunks. concat chunks = content \<longrightarrow>
              fold (\<lambda>c s. hash_update H s c) chunks (hash_new H) = hash_update H (hash_new H) content)"
  using assms
  by (auto simp: compute_file_checksum_def read_chunks_streaming fold_update_streaming)

section \<open>Properties of the ignore policy and the checksum builder\<close>

lemma endswith_iff: "endswith s suf \<longleftrightarrow> (\<exists>p. s = p @ suf)"
proof
  assume "endswith s suf"
  then have "s = take (length s - length suf) s @ suf"
    by (metis append_take_drop_id endswith_def)
  then show "\<exists>p. s = p @ suf" ..
next
  assume "\<exists>p. s = p @ suf"
  then show "endswith s suf" by (auto simp: endswith_def)
qed

lemma dict_keys_update: "dict_keys (AList.update k v d) = insert k (dict_keys d)"
  by (simp add: dict_keys_def dom_update)

lemma checksum_files_keys:
  "checksum_files hashlib env folder alg r files cs = Inr cs' \<Longrightarrow>
     dict_keys cs' = dict_keys cs \<union>
       {path_relpath env (path_join env r file) folder | file. file \<in> set files \<and> \<not> ignored file}"
proof (induction files arbitrary: cs)
  case Nil
  then show ?case by simp
next
  case (Cons fl files)
  show ?case
  proof (cases "ignored fl")
    case True
    with Cons.prems have "checksum_files hashlib env folder alg r files cs = Inr cs'" by simp
    from Cons.IH [OF this] True show ?thesis by auto
  next
    case False
    with Cons.prems obtain digest where
      "checksum_files hashlib env folder alg r files
         (AList.update (path_relpath env (path_join env r fl) folder) digest cs) = Inr cs'"
      by (auto simp: Let_def split: sum.splits)
    from Cons.IH [OF this] False show ?thesis by (auto simp: dict_keys_update)
  qed
qed

lemma checksum_walk_keys:
  "checksum_walk hashlib env folder alg w cs = Inr cs' \<Longrightarrow>
     dict_keys cs' = dict_keys cs \<union>
       {path_relpath env (path_join env r file) folder | r dirs files file.
          (r, dirs, files) \<in> set w \<and> file \<in> set files \<and> \<not> ignored file}"
proof (induction w arbitrary: cs)
  case Nil
  then show ?case by simp
next
  case (Cons t w)
  obtain r dirs files where t: "t = (r, dirs, files)" by (cases t) auto
  from Cons.prems t obtain cs1 where
    1: "checksum_files hashlib env folder alg r (sort files) cs = Inr cs1" and
    2: "checksum_walk hashlib env folder alg w cs1 = Inr cs'"
    by (auto split: sum.splits)
  from checksum_files_keys [OF 1] Cons.IH [OF 2] t show ?case
    by auto
qed


text \<open>
  C5: a file name is ignored iff it is one of the six fixed names or ends with one of the
  six fixed suffixes; and the keys of a snapshot built by \<^verbatim>\<open>compute_folder_checksum\<close> are
  exactly the relative paths of the enumerated files whose name is not ignored, so a file
  with an ignored name contributes no key, whatever its content.
\<close>

theorem ignore_policy:
  "(ignored file \<longleftrightarrow>
      file \<in> {''.DS_Store'', ''Thumbs.db'', ''desktop.ini'', ''.git'', ''.gitignore'', ''.gitattributes''}
      \<or> (\<exists>ext\<in>{''.tmp'', ''.bak'', ''.swp'', ''.swo'', ''.old'', ''.orig''}. \<exists>p. file = p @ ext))
   \<and> (compute_folder_checksum hashlib env folder_path hash_algorithm = Inr snap \<longrightarrow>
        dict_keys snap =
          {path_relpath env (path_join env r f) folder_path | r dirs files f.
             (r, dirs, files) \<in> set (os_walk env folder_path) \<and> f \<in> set files \<and> \<not> ignored f})"
proof -
  have "ignored file \<longleftrightarrow>
      file \<in> {''.DS_Store'', ''Thumbs.db'', ''desktop.ini'', ''.git'', ''.gitignore'', ''.gitattributes''}
      \<or> (\<exists>ext\<in>{''.tmp'', ''.bak'', ''.swp'', ''.swo'', ''.old'', ''.orig''}. \<exists>p. file = p @ ext)"
    unfolding ignored_def IGNORE_FILES_def IGNORE_EXTENSIONS_def endswith_iff ..
  moreover have "dict_keys snap =
          {path_relpath env (path_join env r f) folder_path | r dirs files f.
             (r, dirs, files) \<in> set (os_walk env folder_path) \<and> f \<in> set files \<and> \<not> ignored f}"
    if "compute_folder_checksum hashlib env folder_path hash_algorithm = Inr snap"
    using checksum_walk_keys [OF that [unfolded compute_folder_checksum_def]]
    by (simp add: dict_keys_def)
  ultimately show ?thesis by blast
qed


lemma example_ignored: "ignored ''x.tmp''" "ignored ''.gitignore''" "\<not> ignored ''y.txt''"
  by (simp_all add: ignored_def IGNORE_FILES_def IGNORE_EXTENSIONS_def endswith_def)

lemma example_streaming: "streaming example_hash"
  by (simp add: streaming_def example_hash_def)

lemma example_digest:
  "compute_file_checksum example_hashlib example_env ''r/y.txt'' ''sha256'' = Inr ''10000''"
  by (simp add: compute_file_checksum_def example_hashlib_def example_env_def example_hash_def
      read_chunks.simps str_nat.simps)

lemma example_snapshot:
  "compute_folder_checksum example_hashlib example_env ''r'' ''sha256'' = Inr [(''y.txt'', ''10000'')]"
proof -
  have j: "path_join example_env ''r'' ''y.txt'' = ''r/y.txt''"
    "path_relpath example_env ''r/y.txt'' ''r'' = ''y.txt''"
    "os_walk example_env ''r'' = [(''r'', [''sub''], [''y.txt'', ''x.tmp'']), (''r/sub'', [], [''.gitignore''])]"
    by (simp_all add: example_env_def)
  show ?thesis
    by (simp add: compute_folder_checksum_def j example_ignored example_digest)
qed

theorem ignore_policy_witness:
  "ignored ''x.tmp''
   \<and> compute_folder_checksum example_hashlib example_env ''r'' ''sha256'' = Inr [(''y.txt'', ''10000'')]
   \<and> dict_keys [(''y.txt'', ''10000'')] =
       {path_relpath example_env (path_join example_env r f) ''r'' | r dirs files f.
          (r, dirs, files) \<in> set (os_walk example_env ''r'') \<and> f \<in> set files \<and> \<not> ignored f}"
  using ignore_policy [of "''x.tmp''" example_hashlib example_env "''r''" "''sha256''" "[(''y.txt'', ''10000'')]"]
    example_snapshot
  by simp

theorem compute_file_checksum_whole_witness:
  "streaming example_hash
   \<and> compute_file_checksum example_hashlib example_env ''r/y.txt'' ''sha256'' = Inr ''10000''
   \<and> read_chunks 1 example_hash (replicate 10000 1) (hash_new example_hash)
       = read_chunks 8192 example_hash (replicate 10000 1) (hash_new example_hash)"
proof -
  have 1: "example_hashlib ''sha256'' = Some example_hash"
    by (simp add: example_hashlib_def)
  have 2: "open_rb example_env ''r/y.txt'' = Inr (replicate 10000 1)"
    by (simp add: example_env_def)
  show ?thesis
    using compute_file_checksum_whole [where H = example_hash and hashlib = example_hashlib
        and hash_algorithm = "''sha256''" and env = example_env and file_path = "''r/y.txt''"
        and content = "replicate 10000 1"] 1 2 example_streaming example_digest
    by simp
qed


section \<open>Properties of the configuration reader\<close>

lemma startswithD: "startswith s p \<Longrightarrow> \<exists>r. s = p @ r"
  unfolding startswith_def by (metis append_take_drop_id)

lemma split_eq_1_original: "startswith line ''original='' \<Longrightarrow> \<exists>v. split_eq_1 line = Inr v"
  by (auto dest!: startswithD simp: split_eq_1_def)

lemma split_eq_1_destination: "startswith line ''destination='' \<Longrightarrow> \<exists>v. split_eq_1 line = Inr v"
  by (auto dest!: startswithD simp: split_eq_1_def)

lemma read_config_lines_no_original:
  "\<forall>line\<in>set f. \<not> startswith line ''original='' \<Longrightarrow>
     \<exists>d'. read_config_lines f original_dir destination_dir = Inr (original_dir, d')"
proof (induction f arbitrary: destination_dir)
  case Nil
  then show ?case by simp
next
  case (Cons line f)
  then show ?case
    using split_eq_1_destination [of line] by (cases "startswith line ''destination=''") auto
qed

lemma read_config_lines_no_destination:
  "\<forall>line\<in>set f. \<not> startswith line ''destination='' \<Longrightarrow>
     \<exists>o'. read_config_lines f original_dir destination_dir = Inr (o', destination_dir)"
proof (induction f arbitrary: original_dir)
  case Nil
  then show ?case by simp
next
  case (Cons line f)
  then show ?case
    using split_eq_1_original [of line] by (cases "startswith line ''original=''") auto
qed

lemma read_config_missing_key:
  assumes "open_text env file_path = Inr f"
    and "(\<forall>line\<in>set f. \<not> startswith line ''original='')
         \<or> (\<forall>line\<in>set f. \<not> startswith line ''destination='')"
  shows "read_config env file_path = Inl config_error"
  using assms(2)
proof
  assume "\<forall>line\<in>set f. \<not> startswith line ''original=''"
  from read_config_lines_no_original [OF this, of None None] assms(1)
  show ?thesis by (auto simp: read_config_def)
next
  assume "\<forall>line\<in>set f. \<not> startswith line ''destination=''"
  from read_config_lines_no_destination [OF this, of None None] assms(1)
  show ?thesis by (auto simp: read_config_def split: option.splits)
qed

text \<open>
  C8: when no line of the configuration file starts with \<^verbatim>\<open>original=\<close>, or none starts
  with \<^verbatim>\<open>destination=\<close>, \<^verbatim>\<open>read_config\<close> raises the \<^verbatim>\<open>ValueError\<close> of line 140 and returns
  no pair; \<^verbatim>\<open>main\<close> then opens the configuration file, prints the error and does nothing
  else: no directory is looked up and the comparison is never started.
\<close>

theorem read_config_missing_key_fails:
  assumes "open_text env file_path = Inr f"
    and "(\<forall>line\<in>set f. \<not> startswith line ''original='')
         \<or> (\<forall>line\<in>set f. \<not> startswith line ''destination='')"
  shows "read_config env file_path =
           Inl (ValueError
             ''Both original and destination directories must be specified in the config file.'')
         \<and> main env compare_and_report [prog, file_path] =
             [OpenConfig file_path,
              Print (''An unexpected error occurred: ''
                @ ''Both original and destination directories must be specified in the config file.'')]"
  using read_config_missing_key [OF assms]
  by (simp add: main_def config_error_def)

theorem read_config_missing_key_fails_witness:
  "open_text example_env ''cfg'' = Inr [''original=r'' @ [CHR 0x0A]]
   \<and> \<not> startswith (''original=r'' @ [CHR 0x0A]) ''destination=''
   \<and> read_config example_env ''cfg'' =
        Inl (ValueError
          ''Both original and destination directories must be specified in the config file.'')
   \<and> main example_env (\<lambda>a b. [DirExists a, DirExists b]) [''dirCompare.py'', ''cfg''] =
        [OpenConfig ''cfg'',
         Print (''An unexpected error occurred: ''
           @ ''Both original and destination directories must be specified in the config file.'')]"
proof -
  have 1: "open_text example_env ''cfg'' = Inr [''original=r'' @ [CHR 0x0A]]"
    by (simp add: example_env_def)
  have 2: "(\<forall>line\<in>set [''original=r'' @ [CHR 0x0A]]. \<not> startswith line ''original='')
         \<or> (\<forall>line\<in>set [''original=r'' @ [CHR 0x0A]]. \<not> startswith line ''destination='')"
    by (simp add: startswith_def)
  have 3: "\<not> startswith (''original=r'' @ [CHR 0x0A]) ''destination=''"
    by (simp add: startswith_def)
  show ?thesis
    using read_config_missing_key_fails [OF 1 2, of "\<lambda>a b. [DirExists a, DirExists b]" "''dirCompare.py''"] 1 3
    by simp
qed

text \<open>A configuration with both keys, quotes and surrounding blanks.\<close>

lemma example_config_ok:
  "read_config (example_env\<lparr>open_text := \<lambda>p. Inr [''original= \"a b\" '' @ [CHR 0x0A], ''destination=d'']\<rparr>) ''cfg''
     = Inr (''a b'', ''d'')"
  by (simp add: read_config_def startswith_def split_eq_1_def strip_def strip_quotes_def isspace_def)

section \<open>Properties of the size formatter\<close>

lemma bit_length_le: "n < 2 ^ k \<Longrightarrow> bit_length n \<le> k"
proof (induction k arbitrary: n)
  case 0
  then show ?case by (simp add: bit_length.simps)
next
  case (Suc k)
  then have "n div 2 < 2 ^ k" by simp
  from Suc.IH [OF this] show ?case
    by (subst bit_length.simps) simp
qed

lemma bit_length_gt: "2 ^ k \<le> n \<Longrightarrow> k < bit_length n"
proof (induction k arbitrary: n)
  case 0
  then show ?case by (subst bit_length.simps) simp
next
  case (Suc k)
  then have "2 ^ k \<le> n div 2" by simp
  moreover have "0 < (2::nat) ^ Suc k" by simp
  with Suc.prems have "n \<noteq> 0" by linarith
  ultimately show ?case
    using Suc.IH [of "n div 2"] by (subst bit_length.simps) simp
qed

lemma bit_length_lower: "0 < n \<Longrightarrow> 2 ^ (bit_length n - 1) \<le> n"
proof (induction n rule: bit_length.induct)
  case (1 n)
  have nz: "n \<noteq> 0" using "1.prems" by simp
  then have bl: "bit_length n = Suc (bit_length (n div 2))"
    by (subst bit_length.simps) simp
  show ?case
  proof (cases "n div 2 = 0")
    case True
    then have "bit_length (n div 2) = 0" by (simp add: bit_length.simps)
    with bl "1.prems" show ?thesis by simp
  next
    case False
    then have pos: "0 < n div 2" by simp
    from "1.IH" [OF nz pos] have ih: "2 ^ (bit_length (n div 2) - 1) \<le> n div 2" .
    from pos obtain b where b: "bit_length (n div 2) = Suc b"
      by (subst (asm) bit_length.simps) (auto split: if_splits)
    from ih b have "2 * 2 ^ b \<le> 2 * (n div 2)" by simp
    also have "\<dots> \<le> n" by simp
    finally show ?thesis by (simp add: bl b)
  qed
qed

lemma round_half_even_of_int [simp]: "round_half_even (of_int k) = k"
  by (simp add: round_half_even_def)

lemma round_half_even_of_nat [simp]: "round_half_even (of_nat k) = int k"
  using round_half_even_of_int [of "int k"] by simp

lemma round_half_even_ge_floor: "\<lfloor>x\<rfloor> \<le> round_half_even x"
  by (simp add: round_half_even_def Let_def)

lemma round_half_even_upper: "of_int (round_half_even x) \<le> x + 1 / 2"
proof -
  have "of_int \<lfloor>x\<rfloor> \<le> x" by simp
  then show ?thesis
    by (cases "x - of_int \<lfloor>x\<rfloor> < 1 / 2"; cases "1 / 2 < x - of_int \<lfloor>x\<rfloor>";
        simp add: round_half_even_def Let_def; linarith)
qed

lemma round_half_even_nonneg: "0 \<le> x \<Longrightarrow> 0 \<le> round_half_even x"
  using round_half_even_ge_floor [of x] by (simp add: order_trans [of 0 "\<lfloor>x\<rfloor>"])

lemma int_to_float_exact:
  assumes "\<bar>n\<bar> < 2 ^ 53"
  shows "int_to_float n = Inr (of_int n)"
proof -
  have "nat \<bar>n\<bar> < 2 ^ 53" using assms by (simp add: nat_less_iff)
  then have e: "bit_length (nat \<bar>n\<bar>) - 53 = 0"
    using bit_length_le [of "nat \<bar>n\<bar>" 53] by simp
  have r: "round_half_even \<bar>rat_of_int n\<bar> = \<bar>n\<bar>"
    using round_half_even_of_int [of "\<bar>n\<bar>"] by simp
  have s: "rat_of_int (sgn n) * \<bar>rat_of_int n\<bar> = rat_of_int n"
    by (simp add: sgn_if)
  have "\<bar>n\<bar> < 2 ^ 1024"
    using assms by (rule less_trans) simp
  then show ?thesis
    by (simp add: int_to_float_def Let_def e r s)
qed

lemma float_format_0f_nonneg:
  "0 \<le> x \<Longrightarrow> float_format_0f x = str_nat (nat (round_half_even x))"
  using round_half_even_nonneg [of x] by (simp add: float_format_0f_def)

lemma format_size_loop_float:
  "format_size_loop (PyFloat x) (unit # units) =
     (if x < 1024 then Inr (Some (float_format_0f x @ unit))
      else format_size_loop (PyFloat (x / 1024)) units)"
  by simp

lemma format_size_small:
  assumes "\<bar>n\<bar> < 2 ^ 53"
  shows "format_size n =
     (if n < 1024 then Inr (Some (float_format_0f (of_int n) @ ''B''))
      else format_size_loop (PyFloat (of_int n / 1024)) [''KB'', ''MB'', ''GB'', ''TB''])"
  by (simp add: format_size_def size_units_def int_to_float_exact [OF assms])

lemma floor_rat_numeral_div:
  "\<lfloor>(numeral a :: rat) / numeral b\<rfloor> = numeral a div numeral b"
  using floor_divide_of_int_eq [of "numeral a" "numeral b", where ?'a = rat] by simp

lemma example_round: "round_half_even (3 / 2) = 2" "round_half_even (5 / 2) = 2" "round_half_even (1047552 / 1024) = 1023"
  by (simp_all add: round_half_even_def Let_def floor_rat_numeral_div)

lemma example_str_nat: "str_nat 2 = ''2''" "str_nat 1023 = ''1023''" "str_nat 1 = ''1''"
  by (simp_all add: str_nat.simps)

lemma example_format_size: "format_size 1536 = Inr (Some ''2KB'')"
  using format_size_small [of 1536] by (simp add: format_size_loop_float float_format_0f_nonneg example_round example_str_nat)

lemma int_to_float_pos:
  assumes "0 < n"
  shows "int_to_float n =
     (if 2 ^ 1024 \<le> round_half_even (of_int n / 2 ^ (bit_length (nat n) - 53))
                       * 2 ^ (bit_length (nat n) - 53)
      then Inl (OverflowError ''int too large to convert to float'')
      else Inr (of_int (round_half_even (of_int n / 2 ^ (bit_length (nat n) - 53))
                       * 2 ^ (bit_length (nat n) - 53))))"
proof -
  have "nat \<bar>n\<bar> = nat n" "rat_of_nat (nat n) = rat_of_int n" "sgn n = 1"
    using assms by simp_all
  then show ?thesis
    by (simp only: int_to_float_def Let_def mult_1)
qed

lemma round_half_even_odd_up:
  assumes "odd k" and "of_int k + 1 / 2 \<le> x"
  shows "k + 1 \<le> round_half_even x"
proof (cases "k + 1 \<le> \<lfloor>x\<rfloor>")
  case True
  then show ?thesis using round_half_even_ge_floor [of x] by linarith
next
  case False
  moreover have "k \<le> \<lfloor>x\<rfloor>" using assms(2) by (simp add: le_floor_iff)
  ultimately have f: "\<lfloor>x\<rfloor> = k" by linarith
  then show ?thesis
    using assms by (simp add: round_half_even_def Let_def)
qed

lemma int_to_float_in_range:
  assumes "2 ^ 50 \<le> n" and "n < 2 ^ 1024 - 2 ^ 970"
  shows "\<exists>x. int_to_float n = Inr x \<and> 2 ^ 50 \<le> x"
proof -
  define e where "e = bit_length (nat n) - 53"
  define r where "r = round_half_even (of_int n / 2 ^ e)"
  have npos: "0 < n" using assms(1) by (rule less_le_trans [rotated]) simp
  have "n < 2 ^ 1024" using assms(2) by simp
  then have "nat n < 2 ^ 1024" using npos by (simp add: nat_less_iff)
  then have "bit_length (nat n) \<le> 1024" by (rule bit_length_le)
  then have e971: "e \<le> 971" by (simp add: e_def)
  have P: "(0::rat) < 2 ^ e" by simp
  have "(2::rat) ^ e \<le> 2 ^ 971" using e971 by (intro power_increasing) simp_all
  then have P2: "(2::rat) ^ e / 2 \<le> 2 ^ 970" by simp
  have "rat_of_int r \<le> rat_of_int n / 2 ^ e + 1 / 2"
    unfolding r_def by (rule round_half_even_upper)
  then have "rat_of_int r * 2 ^ e \<le> (rat_of_int n / 2 ^ e + 1 / 2) * 2 ^ e"
    using P by (simp only: mult_le_cancel_right_pos)
  also have "\<dots> = of_int n + 2 ^ e / 2" by (simp add: field_simps)
  also have "\<dots> \<le> of_int n + 2 ^ 970" using P2 by linarith
  also have "\<dots> < 2 ^ 1024"
  proof -
    have "rat_of_int n < rat_of_int (2 ^ 1024 - 2 ^ 970)"
      using assms(2) by (simp only: of_int_less_iff)
    then show ?thesis by simp
  qed
  finally have "rat_of_int (r * 2 ^ e) < rat_of_int (2 ^ 1024)" by simp
  then have no: "\<not> 2 ^ 1024 \<le> r * 2 ^ e" by (simp only: of_int_less_iff not_le)
  have lower: "2 ^ 50 \<le> r * 2 ^ e"
  proof (cases "e = 0")
    case True
    then show ?thesis using assms(1) by (simp add: r_def)
  next
    case False
    then have bl: "bit_length (nat n) - 1 = 52 + e" by (simp add: e_def)
    have "2 ^ (bit_length (nat n) - 1) \<le> nat n"
      using npos by (intro bit_length_lower) simp
    then have "int (2 ^ (52 + e)) \<le> int (nat n)" unfolding bl by (simp only: of_nat_le_iff)
    then have "2 ^ 52 * 2 ^ e \<le> n" using npos by (simp add: power_add)
    then have "rat_of_int (2 ^ 52 * 2 ^ e) \<le> rat_of_int n" by (simp only: of_int_le_iff)
    then have "2 ^ 52 * 2 ^ e \<le> rat_of_int n" by simp
    then have "2 ^ 52 \<le> rat_of_int n / 2 ^ e" using P by (simp add: pos_le_divide_eq)
    then have "rat_of_int (2 ^ 52) \<le> rat_of_int n / 2 ^ e" by simp
    then have "2 ^ 52 \<le> \<lfloor>rat_of_int n / 2 ^ e\<rfloor>" by (simp only: le_floor_iff)
    then have r52: "2 ^ 52 \<le> r" using round_half_even_ge_floor [of "rat_of_int n / 2 ^ e"]
      unfolding r_def by linarith
    have "(1::int) \<le> 2 ^ e" by simp
    with r52 have "2 ^ 52 * 1 \<le> r * 2 ^ e" by (intro mult_mono) simp_all
    then show ?thesis by simp
  qed
  then have "rat_of_int (2 ^ 50) \<le> rat_of_int (r * 2 ^ e)" by (simp only: of_int_le_iff)
  then have "2 ^ 50 \<le> rat_of_int (r * 2 ^ e)" by simp
  with no show ?thesis
    unfolding int_to_float_pos [OF npos] e_def [symmetric] r_def [symmetric] by simp
qed

lemma int_to_float_overflow:
  assumes "2 ^ 1024 - 2 ^ 970 \<le> n"
  shows "int_to_float n = Inl (OverflowError ''int too large to convert to float'')"
proof -
  define e where "e = bit_length (nat n) - 53"
  define r where "r = round_half_even (of_int n / 2 ^ e)"
  have n1023: "2 ^ 1023 \<le> n" using assms by simp
  then have npos: "0 < n" by (rule less_le_trans [rotated]) simp
  have "2 ^ 1023 \<le> nat n" using n1023 by (simp add: le_nat_iff)
  then have "1023 < bit_length (nat n)" by (rule bit_length_gt)
  then have e971: "971 \<le> e" and bl: "bit_length (nat n) - 1 = 52 + e"
    by (simp_all add: e_def)
  have P: "(0::rat) < 2 ^ e" by simp
  have "2 ^ (bit_length (nat n) - 1) \<le> nat n"
    using npos by (intro bit_length_lower) simp
  then have "int (2 ^ (52 + e)) \<le> int (nat n)" unfolding bl by (simp only: of_nat_le_iff)
  then have "2 ^ 52 * 2 ^ e \<le> n" using npos by (simp add: power_add)
  then have "rat_of_int (2 ^ 52 * 2 ^ e) \<le> rat_of_int n" by (simp only: of_int_le_iff)
  then have "2 ^ 52 * 2 ^ e \<le> rat_of_int n" by simp
  then have "2 ^ 52 \<le> rat_of_int n / 2 ^ e" using P by (simp add: pos_le_divide_eq)
  then have "rat_of_int (2 ^ 52) \<le> rat_of_int n / 2 ^ e" by simp
  then have "2 ^ 52 \<le> \<lfloor>rat_of_int n / 2 ^ e\<rfloor>" by (simp only: le_floor_iff)
  then have r52: "2 ^ 52 \<le> r" using round_half_even_ge_floor [of "rat_of_int n / 2 ^ e"]
    unfolding r_def by linarith
  have over: "2 ^ 1024 \<le> r * 2 ^ e"
  proof (cases "e = 971")
    case True
    have "rat_of_int (2 ^ 1024 - 2 ^ 970) \<le> rat_of_int n"
      using assms by (simp only: of_int_le_iff)
    then have "(2 ^ 53 - 1 / 2) * 2 ^ 971 \<le> rat_of_int n" by simp
    then have "2 ^ 53 - 1 / 2 \<le> rat_of_int n / 2 ^ 971"
      by (simp only: pos_le_divide_eq zero_less_power zero_less_numeral)
    then have "rat_of_int (2 ^ 53 - 1) + 1 / 2 \<le> rat_of_int n / 2 ^ e"
      unfolding True by simp
    moreover have "odd ((2::int) ^ 53 - 1)" by simp
    ultimately have "2 ^ 53 - 1 + 1 \<le> r"
      unfolding r_def by (intro round_half_even_odd_up)
    then have "2 ^ 53 \<le> r" by simp
    then have "2 ^ 53 * 2 ^ 971 \<le> r * 2 ^ 971" by (simp only: mult_le_cancel_right) simp
    then show ?thesis unfolding True by simp
  next
    case False
    with e971 have "972 \<le> e" by simp
    then have "(2::int) ^ 972 \<le> 2 ^ e" by (intro power_increasing) simp_all
    with r52 have "2 ^ 52 * 2 ^ 972 \<le> r * 2 ^ e" by (intro mult_mono) simp_all
    then show ?thesis by simp
  qed
  then show ?thesis
    unfolding int_to_float_pos [OF npos] e_def [symmetric] r_def [symmetric] by simp
qed

lemma format_size_large:
  assumes "1024 \<le> n"
  shows "format_size n =
     (case int_to_float n of
        Inl e \<Rightarrow> Inl e
      | Inr x \<Rightarrow> format_size_loop (PyFloat (x / 1024)) [''KB'', ''MB'', ''GB'', ''TB''])"
  using assms by (simp add: format_size_def size_units_def split: sum.splits)

lemma format_size_none:
  assumes "1024 ^ 5 \<le> n" and "n < 2 ^ 1024 - 2 ^ 970"
  shows "format_size n = Inr None"
proof -
  have "2 ^ 50 \<le> n" using assms(1) by simp
  from int_to_float_in_range [OF this assms(2)]
  obtain x where x: "int_to_float n = Inr x" "2 ^ 50 \<le> x" by blast
  have "1024 \<le> n" using assms(1) by simp
  from format_size_large [OF this] x show ?thesis
    by (simp add: format_size_loop_float)
qed

lemma format_size_overflow:
  assumes "2 ^ 1024 - 2 ^ 970 \<le> n"
  shows "format_size n = Inl (OverflowError ''int too large to convert to float'')"
proof -
  have "1024 \<le> n" using assms by simp
  from format_size_large [OF this] int_to_float_overflow [OF assms] show ?thesis
    by simp
qed

text \<open>
  C6, as the code has it: for a byte count \<open>n\<close> with \<open>0 \<le> n < 1024\<^sup>5\<close> the result is a
  string, never \<^verbatim>\<open>None\<close> and never an exception; its unit is the \<open>k\<close>-th of B, KB, MB, GB,
  TB, where \<open>k\<close> is the number of divisions by 1024 that bring \<open>n\<close> below 1024; and its
  numeric part is \<open>n / 1024\<^sup>k\<close> rounded to the nearest integer, a tie going to the even
  neighbour (the format \<^verbatim>\<open>.0f\<close>), not truncated.
\<close>

theorem format_size_rounds:
  assumes "0 \<le> n" and "n < 1024 ^ 5"
  shows "\<exists>k<5. (k = 0 \<or> 1024 ^ k \<le> n) \<and> n < 1024 ^ (k + 1)
           \<and> format_size n =
               Inr (Some (str_nat (nat (round_half_even (of_int n / 1024 ^ k))) @ size_units ! k))"
proof -
  have small: "\<bar>n\<bar> < 2 ^ 53" using assms by simp
  note fs = format_size_small [OF small] format_size_loop_float float_format_0f_nonneg
  consider "n < 1024" | "1024 \<le> n" "n < 1024 ^ 2" | "1024 ^ 2 \<le> n" "n < 1024 ^ 3"
    | "1024 ^ 3 \<le> n" "n < 1024 ^ 4" | "1024 ^ 4 \<le> n" "n < 1024 ^ 5"
    using assms by linarith
  then show ?thesis
  proof cases
    case 1
    with assms have "format_size n = Inr (Some (str_nat (nat (round_half_even (of_int n / 1024 ^ 0))) @ size_units ! 0))"
      by (simp add: fs size_units_def)
    with 1 show ?thesis by (intro exI [of _ 0]) simp
  next
    case 2
    with assms have "format_size n = Inr (Some (str_nat (nat (round_half_even (of_int n / 1024 ^ 1))) @ size_units ! 1))"
      by (simp add: fs size_units_def)
    with 2 show ?thesis by (intro exI [of _ 1]) simp
  next
    case 3
    with assms have "format_size n = Inr (Some (str_nat (nat (round_half_even (of_int n / 1024 ^ 2))) @ size_units ! 2))"
      by (simp add: fs size_units_def)
    with 3 show ?thesis by (intro exI [of _ 2]) simp
  next
    case 4
    with assms have "format_size n = Inr (Some (str_nat (nat (round_half_even (of_int n / 1024 ^ 3))) @ size_units ! 3))"
      by (simp add: fs size_units_def)
    with 4 show ?thesis by (intro exI [of _ 3]) simp
  next
    case 5
    with assms have "format_size n = Inr (Some (str_nat (nat (round_half_even (of_int n / 1024 ^ 4))) @ size_units ! 4))"
      by (simp add: fs size_units_def)
    with 5 show ?thesis by (intro exI [of _ 4]) simp
  qed
qed

theorem format_size_rounds_witness:
  "(0::int) \<le> 1536 \<and> (1536::int) < 1024 ^ 5
   \<and> (\<exists>k<5. (k = 0 \<or> 1024 ^ k \<le> (1536::int)) \<and> (1536::int) < 1024 ^ (k + 1)
         \<and> format_size 1536 =
             Inr (Some (str_nat (nat (round_half_even (of_int 1536 / 1024 ^ k))) @ size_units ! k)))
   \<and> format_size 1536 = Inr (Some ''2KB'')"
proof -
  have 1: "(0::int) \<le> 1536" and 2: "(1536::int) < 1024 ^ 5" by simp_all
  from format_size_rounds [OF 1 2] 1 2 example_format_size show ?thesis by blast
qed

text \<open>
  The numeric part is not the truncated value: 1536 bytes are 1.5 KB, printed as
  \<^verbatim>\<open>2KB\<close>, where truncation would give \<^verbatim>\<open>1KB\<close>.
\<close>

theorem format_size_truncates_counterexample:
  "format_size 1536 = Inr (Some ''2KB'')
   \<and> format_size 1536 \<noteq> Inr (Some (str_nat (nat (1536 div 1024)) @ ''KB''))"
proof -
  have "str_nat (nat (1536 div 1024)) = ''1''"
    by (simp add: str_nat.simps)
  with example_format_size show ?thesis by simp
qed

text \<open>
  C10, as the code has it: for a byte count \<open>n\<close> with \<open>1024\<^sup>5 \<le> n < 2\<^sup>1\<^sup>0\<^sup>2\<^sup>4 - 2\<^sup>9\<^sup>7\<^sup>0\<close>
  the loop runs through the five units without returning and the result is \<^verbatim>\<open>None\<close>; from
  \<open>2\<^sup>1\<^sup>0\<^sup>2\<^sup>4 - 2\<^sup>9\<^sup>7\<^sup>0\<close> on, the first division \<^verbatim>\<open>bytes_size /= 1024.0\<close> raises
  \<^verbatim>\<open>OverflowError\<close>, the integer being too large for a \<^verbatim>\<open>float\<close>.
\<close>

theorem format_size_beyond_units:
  "(1024 ^ 5 \<le> n \<and> n < 2 ^ 1024 - 2 ^ 970 \<longrightarrow> format_size n = Inr None)
   \<and> (2 ^ 1024 - 2 ^ 970 \<le> n \<longrightarrow>
        format_size n = Inl (OverflowError ''int too large to convert to float''))"
  using format_size_none format_size_overflow by blast

theorem format_size_beyond_units_witness:
  "format_size (1024 ^ 5) = Inr None
   \<and> format_size (2 ^ 1024 - 2 ^ 970) = Inl (OverflowError ''int too large to convert to float'')"
proof -
  have "(1024::int) ^ 5 \<le> 1024 ^ 5 \<and> (1024::int) ^ 5 < 2 ^ 1024 - 2 ^ 970" by simp
  moreover have "(2::int) ^ 1024 - 2 ^ 970 \<le> 2 ^ 1024 - 2 ^ 970" by simp
  ultimately show ?thesis
    using format_size_beyond_units [of "1024 ^ 5"] format_size_beyond_units [of "2 ^ 1024 - 2 ^ 970"]
    by blast
qed

text \<open>At \<open>2\<^sup>1\<^sup>0\<^sup>2\<^sup>4\<close> bytes the function raises and does not return \<^verbatim>\<open>None\<close>.\<close>

theorem format_size_beyond_units_counterexample:
  "format_size (2 ^ 1024) = Inl (OverflowError ''int too large to convert to float'')
   \<and> format_size (2 ^ 1024) \<noteq> Inr None"
proof -
  have "(2::int) ^ 1024 - 2 ^ 970 \<le> 2 ^ 1024" by simp
  from format_size_overflow [OF this] show ?thesis by simp
qed

end
